theory Spec2Isabelle
  imports Main "HOL-Library.Char_ord" "HOL-Library.List_Lexorder" "HOL-Library.Mapping"
    "HOL-Library.AList_Mapping"
begin

section \<open>Go error values\<close>

text \<open>
  The two functions of package \<open>svcauth\<close> build their errors with \<open>fmt.Errorf\<close>.
  With a \<open>%w\<close> verb the result carries the formatted message and the wrapped cause
  (\<open>Unwrap\<close> returns it); without one it is a plain message. The errors returned by
  the authentication methods themselves are values of the same type.
\<close>

datatype error =
    errorString string
  | wrapError string error

fun Error :: "error \<Rightarrow> string" where
  "Error (errorString s) = s"
| "Error (wrapError msg cause) = msg"

fun Unwrap :: "error \<Rightarrow> error option" where
  "Unwrap (errorString s) = None"
| "Unwrap (wrapError msg cause) = Some cause"

text \<open>\<open>fmt.Errorf(prefix + "%w", err)\<close> and \<open>fmt.Errorf(prefix + "%s", s)\<close>.\<close>

definition Errorf_w :: "string \<Rightarrow> error \<Rightarrow> error" where
  "Errorf_w prefix err = wrapError (prefix @ Error err) err"

definition Errorf_s :: "string \<Rightarrow> string \<Rightarrow> error" where
  "Errorf_s prefix s = errorString (prefix @ s)"

section \<open>The transport and the authentication methods\<close>

text \<open>
  Modelled from the spec: the interface \<open>transport.Transport\<close> is declared outside
  the files at hand. The spec describes it as a key/value store attached to a request,
  with \<open>SetMeta(key, value)\<close> and \<open>ReadMeta(key) -> (value, found)\<close>, that keeps values
  unmodified. Everything else a request carries (body, headers, signature material) is
  the field \<open>payload\<close>.
\<close>

record 'p Transport =
  meta :: "string \<rightharpoonup> string"
  payload :: 'p

text \<open>Modelled from the spec: \<open>SetMeta(key, value)\<close> of the transport stores the value under the key.\<close>

definition SetMeta :: "string \<Rightarrow> string \<Rightarrow> 'p Transport \<Rightarrow> 'p Transport" where
  "SetMeta key val req = req\<lparr>meta := (meta req)(key \<mapsto> val)\<rparr>"

text \<open>
  Modelled from the spec: \<open>ReadMeta(key) -> (value, found)\<close> of the transport; \<open>None\<close> is
  \<open>found = false\<close>.
\<close>

definition ReadMeta :: "string \<Rightarrow> 'p Transport \<Rightarrow> string option" where
  "ReadMeta key req = meta req key"

text \<open>
  The interface \<open>ServiceAuth\<close> is declared outside the files at hand too; its
  operations are the three that \<open>Sign\<close> and \<open>Verify\<close> call, and a method is any value
  that provides them. \<open>method_name\<close> is its \<open>method()\<close>, the name of the method.
  \<open>sign\<close> receives the request by
  reference: it returns its error (or none) together with the request as it left it,
  also when it fails. \<open>verify\<close> reports an error or none.
\<close>

record 'p ServiceAuth =
  method_name :: string
  sign :: "'p Transport \<Rightarrow> error option \<times> 'p Transport"
  verify :: "'p Transport \<Rightarrow> error option"

definition AuthMethodMetaKey :: string where
  "AuthMethodMetaKey = ''Svc-Auth-Method''"

section \<open>Sign and Verify\<close>

text \<open>\<open>Sign\<close> returns its error together with the request after the call.\<close>

definition Sign :: "'p ServiceAuth \<Rightarrow> 'p Transport \<Rightarrow> error option \<times> 'p Transport" where
  "Sign m req =
     (case sign m req of
        (Some err, req') \<Rightarrow> (Some (Errorf_w ''failed to sign request: '' err), req')
      | (None, req') \<Rightarrow> (None, SetMeta AuthMethodMetaKey (method_name m) req'))"

text \<open>
  The loop of \<open>Verify\<close> over the loaded methods. Beside the two results of the source it
  returns the positions (counted from \<open>i\<close>) of the methods whose \<open>verify\<close> it invoked,
  in the order of the calls.
\<close>

fun Verify_loop ::
  "string \<Rightarrow> 'p Transport \<Rightarrow> nat \<Rightarrow> 'p ServiceAuth list \<Rightarrow> (bool \<times> error option) \<times> nat list" where
  "Verify_loop name req i [] =
     ((False, Some (Errorf_s ''unknown service to service authentication method: '' name)), [])"
| "Verify_loop name req i (authMethod # rest) =
     (if method_name authMethod = name then
        (case verify authMethod req of
           Some err \<Rightarrow> ((False, Some (Errorf_w ''failed to verify request: '' err)), [i])
         | None \<Rightarrow> ((True, None), [i]))
      else Verify_loop name req (Suc i) rest)"

definition Verify_run ::
  "'p Transport \<Rightarrow> 'p ServiceAuth list \<Rightarrow> (bool \<times> error option) \<times> nat list" where
  "Verify_run req loadedAuthMethods =
     (case ReadMeta AuthMethodMetaKey req of
        None \<Rightarrow> ((False, None), [])
      | Some name \<Rightarrow> Verify_loop name req 0 loadedAuthMethods)"

text \<open>The pair \<open>(internalCall, err)\<close> that \<open>Verify\<close> returns.\<close>

definition Verify :: "'p Transport \<Rightarrow> 'p ServiceAuth list \<Rightarrow> bool \<times> error option" where
  "Verify req loadedAuthMethods = fst (Verify_run req loadedAuthMethods)"

text \<open>The positions in the list of the methods whose \<open>verify\<close> a call of \<open>Verify\<close> invokes.\<close>

definition Verify_invoked :: "'p Transport \<Rightarrow> 'p ServiceAuth list \<Rightarrow> nat list" where
  "Verify_invoked req loadedAuthMethods = snd (Verify_run req loadedAuthMethods)"

section \<open>Package experiments\<close>

type_synonym Name = string

definition envName :: string where
  "envName = ''ENCORE_EXPERIMENT''"

definition LocalSecretsOverride :: Name where
  "LocalSecretsOverride = ''local-secrets-override''"

definition Metrics :: Name where
  "Metrics = ''metrics''"

definition V2 :: Name where
  "V2 = ''v2''"

definition BetaRuntime :: Name where
  "BetaRuntime = ''beta-runtime''"

definition ExternalCalls :: Name where
  "ExternalCalls = ''external-calls''"

definition Valid :: "Name \<Rightarrow> bool" where
  "Valid x =
     (x = LocalSecretsOverride \<or> x = Metrics \<or> x = V2 \<or> x = BetaRuntime \<or> x = ExternalCalls)"

text \<open>
  The struct \<open>Set\<close> holds one Go map from names to booleans. A \<open>*Set\<close> may be nil:
  it is a \<open>Set option\<close>.
\<close>

record Set =
  experiments :: "(Name, bool) mapping"

text \<open>Reading a Go map at a key it does not hold gives the zero value, \<open>false\<close>.\<close>

definition Enabled :: "Name \<Rightarrow> Set option \<Rightarrow> bool" where
  "Enabled x s =
     (case s of
        None \<Rightarrow> False
      | Some s' \<Rightarrow> (case Mapping.lookup (experiments s') x of None \<Rightarrow> False | Some b \<Rightarrow> b))"

text \<open>
  \<open>maps.Keys\<close> followed by \<open>slices.Sort\<close>: the keys of the map in increasing order.
  Go compares strings byte by byte, a proper prefix being smaller, which is the
  lexicographic order on \<open>char list\<close>. A nil slice is the empty list.
\<close>

definition List :: "Set option \<Rightarrow> Name list" where
  "List s =
     (case s of
        None \<Rightarrow> []
      | Some s' \<Rightarrow> Mapping.ordered_keys (experiments s'))"

datatype UnknownExperimentError = UnknownExperimentError (Name: Name)

definition UnknownExperimentError_Error :: "UnknownExperimentError \<Rightarrow> string" where
  "UnknownExperimentError_Error e = ''unknown experiment: '' @ Name e"

text \<open>
  \<open>add\<close> updates the map in place and stops at the first unknown name: it returns its
  error (or none) and the set as the loop left it.
\<close>

fun add :: "Set \<Rightarrow> Name list \<Rightarrow> UnknownExperimentError option \<times> Set" where
  "add s [] = (None, s)"
| "add s (key # keys) =
     (if key = '''' then add s keys
      else if \<not> Valid key then (Some (UnknownExperimentError key), s)
      else add (s\<lparr>experiments := Mapping.update key True (experiments s)\<rparr>) keys)"

text \<open>
  \<open>strings.Trim(s, cutset)\<close> drops the leading and the trailing bytes that occur in
  \<open>cutset\<close>.
\<close>

definition Trim :: "string \<Rightarrow> string \<Rightarrow> string" where
  "Trim s cutset =
     rev (dropWhile (\<lambda>c. c \<in> set cutset) (rev (dropWhile (\<lambda>c. c \<in> set cutset) s)))"

text \<open>
  \<open>strings.Split(s, sep)\<close> for a separator of one byte, the only use in this package:
  the pieces of \<open>s\<close> between the separators, one piece more than there are separators.
\<close>

fun Split :: "string \<Rightarrow> char \<Rightarrow> string list" where
  "Split [] sep = [[]]"
| "Split (c # cs) sep =
     (if c = sep then [] # Split cs sep
      else (case Split cs sep of
              [] \<Rightarrow> [[c]]
            | piece # pieces \<Rightarrow> (c # piece) # pieces))"

definition HasPrefix :: "string \<Rightarrow> string \<Rightarrow> bool" where
  "HasPrefix s prefix = (length prefix \<le> length s \<and> take (length prefix) s = prefix)"

text \<open>The cutset of \<open>parseEnvVal\<close>: the double quote and the single quote.\<close>

definition quotes :: string where
  "quotes = [CHR 0x22, CHR 0x27]"

definition parseEnvVal :: "string \<Rightarrow> Name list" where
  "parseEnvVal val = (if val = '''' then [] else Split (Trim val quotes) (CHR '',''))"

text \<open>
  \<open>os.Getenv\<close> reads the environment of the process, here the map \<open>osenv\<close>; a variable
  that is not set reads as the empty string.
\<close>

definition Getenv :: "(string \<rightharpoonup> string) \<Rightarrow> string \<Rightarrow> string" where
  "Getenv osenv key = (case osenv key of None \<Rightarrow> '''' | Some val \<Rightarrow> val)"

definition prefix :: string where
  "prefix = envName @ ''=''"

text \<open>The last loop of \<open>NewSet\<close>, over the environment of the caller.\<close>

fun NewSet_environ :: "Set \<Rightarrow> string list \<Rightarrow> UnknownExperimentError option \<times> Set" where
  "NewSet_environ s [] = (None, s)"
| "NewSet_environ s (env # environ) =
     (if HasPrefix env prefix then
        (case add s (parseEnvVal (drop (length prefix) env)) of
           (Some err, s') \<Rightarrow> (Some err, s')
         | (None, s') \<Rightarrow> NewSet_environ s' environ)
      else NewSet_environ s environ)"

text \<open>
  \<open>NewSet\<close> returns \<open>(nil, err)\<close> or \<open>(set, nil)\<close>: the sum of the two. The environment of
  the process is its first argument.
\<close>

definition NewSet ::
  "(string \<rightharpoonup> string) \<Rightarrow> Name list \<Rightarrow> string list \<Rightarrow> UnknownExperimentError + Set" where
  "NewSet osenv fromAppFile environ =
     (case add \<lparr>experiments = Mapping.empty\<rparr> fromAppFile of
        (Some err, _) \<Rightarrow> Inl err
      | (None, s1) \<Rightarrow>
          (case (let val = Getenv osenv envName
                 in if val \<noteq> '''' then add s1 (parseEnvVal val) else (None, s1)) of
             (Some err, _) \<Rightarrow> Inl err
           | (None, s2) \<Rightarrow>
               (case NewSet_environ s2 environ of
                  (Some err, _) \<Rightarrow> Inl err
                | (None, s3) \<Rightarrow> Inr s3)))"

text \<open>
  The names that \<open>NewSet\<close> hands to \<open>add\<close>, in the order of the calls: the list of the
  app file, the segments of the variable of the process, then the segments of every
  entry of the caller's environment that starts with the prefix.
\<close>

definition NewSet_keys :: "(string \<rightharpoonup> string) \<Rightarrow> Name list \<Rightarrow> string list \<Rightarrow> Name list" where
  "NewSet_keys osenv fromAppFile environ =
     fromAppFile @ parseEnvVal (Getenv osenv envName)
       @ concat (map (\<lambda>env. parseEnvVal (drop (length prefix) env))
                   (filter (\<lambda>env. HasPrefix env prefix) environ))"

section \<open>Concrete methods and requests\<close>

text \<open>
  Inputs for the closed instances below. \<open>tagAuth\<close> is a method with a shared secret:
  it signs by storing the secret followed by the body under \<open>Authorization\<close>, fails to
  sign without a secret, and verifies by comparing.
\<close>

definition tagAuth :: "string \<Rightarrow> string \<Rightarrow> string ServiceAuth" where
  "tagAuth name secret =
     \<lparr>method_name = name,
      sign = (\<lambda>req. if secret = '''' then (Some (errorString ''missing secret''), req)
                    else (None, SetMeta ''Authorization'' (secret @ payload req) req)),
      verify = (\<lambda>req. if ReadMeta ''Authorization'' req = Some (secret @ payload req) then None
                      else Some (errorString ''bad signature''))\<rparr>"

definition request :: "string \<Rightarrow> string Transport" where
  "request body = \<lparr>meta = Map.empty, payload = body\<rparr>"

section \<open>Metadata, Sign and the loop of Verify\<close>

lemma ReadMeta_SetMeta: "ReadMeta key (SetMeta key val req) = Some val"
  by (simp add: ReadMeta_def SetMeta_def)

lemma Sign_ok_iff: "fst (Sign M R) = None \<longleftrightarrow> fst (sign M R) = None"
  by (simp add: Sign_def split: prod.splits option.splits)

lemma Sign_ok_marker:
  "fst (Sign M R) = None \<Longrightarrow> ReadMeta AuthMethodMetaKey (snd (Sign M R)) = Some (method_name M)"
  by (auto simp add: Sign_def ReadMeta_SetMeta split: prod.splits option.splits)

lemma Verify_loop_no_match:
  "\<forall>m\<in>set ms. method_name m \<noteq> name \<Longrightarrow>
   Verify_loop name req i ms =
     ((False, Some (Errorf_s ''unknown service to service authentication method: '' name)), [])"
  by (induction ms arbitrary: i) auto

lemma Verify_loop_first_match:
  "\<forall>m\<in>set before. method_name m \<noteq> name \<Longrightarrow> method_name m = name \<Longrightarrow>
   Verify_loop name req i (before @ m # after) =
     (case verify m req of
        Some err \<Rightarrow> ((False, Some (Errorf_w ''failed to verify request: '' err)), [i + length before])
      | None \<Rightarrow> ((True, None), [i + length before]))"
  by (induction before arbitrary: i) (simp_all split: option.splits)

lemma Verify_first_match:
  assumes "ReadMeta AuthMethodMetaKey req = Some name"
      and "\<forall>m\<in>set before. method_name m \<noteq> name" and "method_name m = name"
  shows "Verify_run req (before @ m # after) =
     (case verify m req of
        Some err \<Rightarrow> ((False, Some (Errorf_w ''failed to verify request: '' err)), [length before])
      | None \<Rightarrow> ((True, None), [length before]))"
  using assms by (simp add: Verify_run_def Verify_loop_first_match split: option.splits)

lemma Verify_no_match:
  assumes "ReadMeta AuthMethodMetaKey req = Some name" and "\<forall>m\<in>set ms. method_name m \<noteq> name"
  shows "Verify_run req ms =
     ((False, Some (Errorf_s ''unknown service to service authentication method: '' name)), [])"
  using assms by (simp add: Verify_run_def Verify_loop_no_match)

lemma find_split:
  "find P xs = Some x \<Longrightarrow>
   \<exists>before after. xs = before @ x # after \<and> (\<forall>y\<in>set before. \<not> P y) \<and> P x"
proof (induction xs)
  case Nil
  then show ?case by simp
next
  case (Cons y ys)
  show ?case
  proof (cases "P y")
    case True
    with Cons.prems have "x = y" by simp
    with True have "y # ys = [] @ x # ys \<and> (\<forall>z\<in>set []. \<not> P z) \<and> P x" by simp
    then show ?thesis by blast
  next
    case False
    with Cons.prems have "find P ys = Some x" by simp
    with Cons.IH obtain before after where
      h: "ys = before @ x # after" "\<forall>z\<in>set before. \<not> P z" "P x" by blast
    with False
    have "y # ys = (y # before) @ x # after \<and> (\<forall>z\<in>set (y # before). \<not> P z) \<and> P x"
      by simp
    then show ?thesis by blast
  qed
qed

lemma takeWhile_first:
  "\<forall>y\<in>set before. \<not> P y \<Longrightarrow> P x \<Longrightarrow>
   takeWhile (\<lambda>y. \<not> P y) (before @ x # after) = before"
  by (induction before) simp_all

lemmas svcauth_eval =
  tagAuth_def request_def Sign_def SetMeta_def ReadMeta_def Verify_def
  Verify_invoked_def Verify_run_def AuthMethodMetaKey_def Errorf_w_def Errorf_s_def

section \<open>Claims about Sign and Verify\<close>

text \<open>
  Claim C1. When the sign operation of a method \<open>M\<close> succeeds on a request \<open>R\<close> and the
  verify operation of \<open>M\<close> accepts the request that \<open>M\<close> signed, then \<open>Sign(M, R)\<close>
  returns no error and \<open>Verify\<close> of the signed request against \<open>[M]\<close> returns
  \<open>internalCall = true\<close> and no error. Of the verify operation only its verdict on the
  one request that \<open>Sign\<close> produced from \<open>R\<close> is needed.
\<close>

theorem Sign_then_Verify_internal:
  assumes "fst (sign M R) = None"
      and "verify M (snd (Sign M R)) = None"
  shows "fst (Sign M R) = None \<and> Verify (snd (Sign M R)) [M] = (True, None)"
proof -
  have ok: "fst (Sign M R) = None" using assms(1) by (simp add: Sign_ok_iff)
  then have marker: "ReadMeta AuthMethodMetaKey (snd (Sign M R)) = Some (method_name M)"
    by (rule Sign_ok_marker)
  have "Verify_run (snd (Sign M R)) ([] @ M # []) = ((True, None), [0])"
    using Verify_first_match [OF marker, of "[]" M "[]"] assms(2) by simp
  then show ?thesis using ok by (simp add: Verify_def)
qed

theorem Sign_then_Verify_internal_witness:
  "fst (sign (tagAuth ''hmac-v1'' ''s3cr3t'') (request ''GET /orders/42'')) = None
   \<and> verify (tagAuth ''hmac-v1'' ''s3cr3t'')
       (snd (Sign (tagAuth ''hmac-v1'' ''s3cr3t'') (request ''GET /orders/42''))) = None
   \<and> fst (Sign (tagAuth ''hmac-v1'' ''s3cr3t'') (request ''GET /orders/42'')) = None
   \<and> Verify (snd (Sign (tagAuth ''hmac-v1'' ''s3cr3t'') (request ''GET /orders/42'')))
       [tagAuth ''hmac-v1'' ''s3cr3t''] = (True, None)"
proof -
  have h1: "fst (sign (tagAuth ''hmac-v1'' ''s3cr3t'') (request ''GET /orders/42'')) = None"
    by (simp add: svcauth_eval)
  have h2: "verify (tagAuth ''hmac-v1'' ''s3cr3t'')
       (snd (Sign (tagAuth ''hmac-v1'' ''s3cr3t'') (request ''GET /orders/42''))) = None"
    by (simp add: svcauth_eval)
  show ?thesis using h1 h2 Sign_then_Verify_internal [OF h1 h2] by simp
qed

text \<open>
  Claim C2. For a request whose metadata has no entry under \<open>Svc-Auth-Method\<close> and for
  every list of loaded methods, the empty list too, \<open>Verify\<close> returns
  \<open>internalCall = false\<close> and a nil error.
\<close>

theorem Verify_absent_marker:
  "ReadMeta AuthMethodMetaKey req = None \<Longrightarrow> Verify req ms = (False, None)"
  by (simp add: Verify_def Verify_run_def)

theorem Verify_absent_marker_witness:
  "ReadMeta AuthMethodMetaKey (request ''GET /orders/42'') = None
   \<and> Verify (request ''GET /orders/42'') [] = (False, None)
   \<and> Verify (request ''GET /orders/42'') [tagAuth ''hmac-v1'' ''s3cr3t''] = (False, None)"
proof -
  have h: "ReadMeta AuthMethodMetaKey (request ''GET /orders/42'') = None"
    by (simp add: svcauth_eval)
  show ?thesis
    using h Verify_absent_marker [OF h, of "[]"]
      Verify_absent_marker [OF h, of "[tagAuth ''hmac-v1'' ''s3cr3t'']"]
    by simp
qed

text \<open>
  Claim C3. When the metadata of a request declares a method name, the loaded list
  holds a method of that name, and the verify operation of that method (the one the scan
  selects: the first of that name, the only one when names are unique) fails with some
  cause, \<open>Verify\<close> returns \<open>internalCall = false\<close> and the error
  \<open>failed to verify request: ...\<close> that wraps the cause. The outcome differs from the
  outcome \<open>(false, nil)\<close> of a call that is not internal.
\<close>

theorem Verify_failure_wraps_cause:
  assumes "ReadMeta AuthMethodMetaKey req = Some name"
      and "find (\<lambda>m. method_name m = name) ms = Some m"
      and "verify m req = Some cause"
  shows "Verify req ms = (False, Some (Errorf_w ''failed to verify request: '' cause))
         \<and> Unwrap (Errorf_w ''failed to verify request: '' cause) = Some cause
         \<and> Error (Errorf_w ''failed to verify request: '' cause)
             = ''failed to verify request: '' @ Error cause
         \<and> Verify req ms \<noteq> (False, None)"
proof -
  from find_split [OF assms(2)] obtain before after where
    h: "ms = before @ m # after" "\<forall>y\<in>set before. method_name y \<noteq> name" "method_name m = name"
    by blast
  have "Verify_run req (before @ m # after) =
      ((False, Some (Errorf_w ''failed to verify request: '' cause)), [length before])"
    using Verify_first_match [OF assms(1) h(2) h(3)] assms(3) by simp
  then have "Verify req ms = (False, Some (Errorf_w ''failed to verify request: '' cause))"
    using h(1) by (simp add: Verify_def)
  then show ?thesis by (simp add: Errorf_w_def)
qed

theorem Verify_failure_wraps_cause_witness:
  "Verify ((snd (Sign (tagAuth ''hmac-v1'' ''s3cr3t'') (request ''GET /orders/42'')))
             \<lparr>payload := ''GET /orders/43''\<rparr>)
     [tagAuth ''hmac-v2'' ''k'', tagAuth ''hmac-v1'' ''s3cr3t'']
   = (False, Some (wrapError ''failed to verify request: bad signature''
                     (errorString ''bad signature'')))"
proof -
  let ?req = "(snd (Sign (tagAuth ''hmac-v1'' ''s3cr3t'') (request ''GET /orders/42'')))
             \<lparr>payload := ''GET /orders/43''\<rparr>"
  have h1: "ReadMeta AuthMethodMetaKey ?req = Some ''hmac-v1''"
    by (simp add: svcauth_eval)
  have h2: "find (\<lambda>m. method_name m = ''hmac-v1'')
              [tagAuth ''hmac-v2'' ''k'', tagAuth ''hmac-v1'' ''s3cr3t'']
            = Some (tagAuth ''hmac-v1'' ''s3cr3t'')"
    by (simp add: tagAuth_def)
  have h3: "verify (tagAuth ''hmac-v1'' ''s3cr3t'') ?req = Some (errorString ''bad signature'')"
    by (simp add: svcauth_eval)
  show ?thesis using Verify_failure_wraps_cause [OF h1 h2 h3] by (simp add: Errorf_w_def)
qed

text \<open>
  Claim C4. When the metadata of a request declares a method name that no loaded method
  bears, \<open>Verify\<close> returns \<open>internalCall = false\<close> and the error
  \<open>unknown service to service authentication method: \<close> followed by the name; so it does for a
  request signed with \<open>M1\<close> and verified against \<open>[M2]\<close> when the two names differ.
  The error names the declared method, wraps nothing, and differs from every
  verification failure both as a value and by its message.
\<close>

theorem Verify_unknown_method:
  "(ReadMeta AuthMethodMetaKey req = Some name \<and> (\<forall>m\<in>set ms. method_name m \<noteq> name) \<longrightarrow>
      Verify req ms =
        (False, Some (Errorf_s ''unknown service to service authentication method: '' name)))
   \<and> (fst (Sign M1 R) = None \<and> method_name M1 \<noteq> method_name M2 \<longrightarrow>
      Verify (snd (Sign M1 R)) [M2] =
        (False, Some (Errorf_s ''unknown service to service authentication method: ''
                        (method_name M1))))
   \<and> Error (Errorf_s ''unknown service to service authentication method: '' name) =
        ''unknown service to service authentication method: '' @ name
   \<and> Unwrap (Errorf_s ''unknown service to service authentication method: '' name) = None
   \<and> Unwrap (Errorf_w ''failed to verify request: '' cause) = Some cause
   \<and> Errorf_s ''unknown service to service authentication method: '' name
        \<noteq> Errorf_w ''failed to verify request: '' cause
   \<and> Error (Errorf_s ''unknown service to service authentication method: '' name)
        \<noteq> Error (Errorf_w ''failed to verify request: '' cause)"
proof -
  have a: "ReadMeta AuthMethodMetaKey req = Some name \<and> (\<forall>m\<in>set ms. method_name m \<noteq> name) \<longrightarrow>
      Verify req ms =
        (False, Some (Errorf_s ''unknown service to service authentication method: '' name))"
    by (simp add: Verify_def Verify_no_match)
  have b: "fst (Sign M1 R) = None \<and> method_name M1 \<noteq> method_name M2 \<longrightarrow>
      Verify (snd (Sign M1 R)) [M2] =
        (False, Some (Errorf_s ''unknown service to service authentication method: ''
                        (method_name M1)))"
  proof (intro impI, elim conjE)
    assume ok: "fst (Sign M1 R) = None" and ne: "method_name M1 \<noteq> method_name M2"
    have "\<forall>m\<in>set [M2]. method_name m \<noteq> method_name M1" using ne by simp
    from Verify_no_match [OF Sign_ok_marker [OF ok] this]
    show "Verify (snd (Sign M1 R)) [M2] =
        (False, Some (Errorf_s ''unknown service to service authentication method: ''
                        (method_name M1)))"
      by (simp add: Verify_def)
  qed
  have c: "Error (Errorf_s ''unknown service to service authentication method: '' name)
        \<noteq> Error (Errorf_w ''failed to verify request: '' cause)"
    by (simp add: Errorf_s_def Errorf_w_def)
  show ?thesis using a b c by (simp add: Errorf_s_def Errorf_w_def)
qed

theorem Verify_unknown_method_witness:
  "Verify (snd (Sign (tagAuth ''hmac-v1'' ''s3cr3t'') (request ''GET /orders/42'')))
     [tagAuth ''hmac-v2'' ''s3cr3t'']
   = (False, Some (errorString ''unknown service to service authentication method: hmac-v1''))
   \<and> Verify (snd (Sign (tagAuth ''hmac-v1'' ''s3cr3t'') (request ''GET /orders/42''))) []
   = (False, Some (errorString ''unknown service to service authentication method: hmac-v1''))"
proof -
  let ?M1 = "tagAuth ''hmac-v1'' ''s3cr3t''" and ?M2 = "tagAuth ''hmac-v2'' ''s3cr3t''"
  let ?R = "request ''GET /orders/42''"
  have h1: "fst (Sign ?M1 ?R) = None \<and> method_name ?M1 \<noteq> method_name ?M2"
    by (simp add: svcauth_eval)
  have h2: "ReadMeta AuthMethodMetaKey (snd (Sign ?M1 ?R)) = Some ''hmac-v1''
            \<and> (\<forall>m\<in>set ([] :: string ServiceAuth list). method_name m \<noteq> ''hmac-v1'')"
    by (simp add: svcauth_eval)
  have m: "method_name ?M1 = ''hmac-v1''" by (simp add: tagAuth_def)
  show ?thesis
    using h1 h2 m
      Verify_unknown_method [of "snd (Sign ?M1 ?R)" "''hmac-v1''" "[]" ?M1 ?R ?M2]
    by (simp add: Errorf_s_def)
qed

text \<open>
  Claim C5. When the sign operation of \<open>M\<close> fails on \<open>R\<close> with some cause,
  \<open>Sign(M, R)\<close> returns the error \<open>failed to sign request: ...\<close> that wraps the cause,
  and \<open>Sign\<close> does not write the entry under \<open>Svc-Auth-Method\<close>, nor any other: it
  returns before its \<open>SetMeta\<close>, so the request is exactly as the sign operation left it,
  and the entry under that key is as it was before the call, the sign operation of a
  method leaving that key alone.
\<close>

theorem Sign_failure_no_marker:
  assumes "sign M R = (Some cause, R')"
  shows "Sign M R = (Some (Errorf_w ''failed to sign request: '' cause), R')
         \<and> Unwrap (Errorf_w ''failed to sign request: '' cause) = Some cause
         \<and> Error (Errorf_w ''failed to sign request: '' cause)
             = ''failed to sign request: '' @ Error cause
         \<and> ReadMeta AuthMethodMetaKey (snd (Sign M R)) = ReadMeta AuthMethodMetaKey R'
         \<and> (ReadMeta AuthMethodMetaKey R' = ReadMeta AuthMethodMetaKey R \<longrightarrow>
              ReadMeta AuthMethodMetaKey (snd (Sign M R)) = ReadMeta AuthMethodMetaKey R)"
  using assms by (simp add: Sign_def Errorf_w_def)

theorem Sign_failure_no_marker_witness:
  "Sign (tagAuth ''hmac-v1'' '''') (request ''GET /orders/42'')
     = (Some (wrapError ''failed to sign request: missing secret''
                (errorString ''missing secret'')),
        request ''GET /orders/42'')
   \<and> ReadMeta AuthMethodMetaKey
        (snd (Sign (tagAuth ''hmac-v1'' '''') (request ''GET /orders/42''))) = None"
proof -
  have h: "sign (tagAuth ''hmac-v1'' '''') (request ''GET /orders/42'')
             = (Some (errorString ''missing secret''), request ''GET /orders/42'')"
    by (simp add: tagAuth_def)
  have r: "ReadMeta AuthMethodMetaKey (request ''GET /orders/42'') = None"
    by (simp add: svcauth_eval)
  show ?thesis using r Sign_failure_no_marker [OF h] by (simp add: Errorf_w_def)
qed

text \<open>
  Claim C6. For a request that declares a method name, \<open>Verify\<close> invokes the verify
  operation of at most one loaded method: of none when no loaded method bears exactly
  the declared name, and otherwise of the first method in the list whose name is equal
  to it, whatever that verify operation answers. Names are compared as byte strings.
\<close>

theorem Verify_invokes_first_match_only:
  assumes "ReadMeta AuthMethodMetaKey req = Some name"
  shows "Verify_invoked req ms =
           (if \<exists>m\<in>set ms. method_name m = name
            then [length (takeWhile (\<lambda>m. method_name m \<noteq> name) ms)] else [])
         \<and> length (Verify_invoked req ms) \<le> 1
         \<and> (\<forall>i\<in>set (Verify_invoked req ms).
              i < length ms \<and> method_name (ms ! i) = name \<and> (\<forall>j<i. method_name (ms ! j) \<noteq> name))"
proof (cases "\<exists>m\<in>set ms. method_name m = name")
  case False
  then have "\<forall>m\<in>set ms. method_name m \<noteq> name" by blast
  from Verify_no_match [OF assms this] have "Verify_invoked req ms = []"
    by (simp add: Verify_invoked_def)
  with False show ?thesis by simp
next
  case True
  from split_list_first_prop [OF True] obtain before m after where
    ms: "ms = before @ m # after" and m: "method_name m = name"
    and before: "\<forall>y\<in>set before. method_name y \<noteq> name" by blast
  have "snd (Verify_run req (before @ m # after)) = [length before]"
    using Verify_first_match [OF assms before m, of after] by (simp split: option.splits)
  then have inv: "Verify_invoked req ms = [length before]"
    unfolding Verify_invoked_def ms .
  have tw: "takeWhile (\<lambda>m. method_name m \<noteq> name) ms = before"
    unfolding ms using takeWhile_first [of before "\<lambda>m. method_name m = name" m after] before m
    by simp
  have lt: "length before < length ms" unfolding ms by simp
  have at: "method_name (ms ! length before) = name" unfolding ms using m by simp
  have least: "\<forall>j<length before. method_name (ms ! j) \<noteq> name"
  proof (intro allI impI)
    fix j assume j: "j < length before"
    then have "ms ! j = before ! j" unfolding ms by (simp add: nth_append)
    moreover have "before ! j \<in> set before" using j by simp
    ultimately show "method_name (ms ! j) \<noteq> name" using before by simp
  qed
  show ?thesis unfolding inv tw using True lt at least by simp
qed

theorem Verify_invokes_first_match_only_witness:
  "Verify_invoked (snd (Sign (tagAuth ''hmac-v1'' ''s3cr3t'') (request ''GET /orders/42'')))
     [tagAuth ''hmac'' ''s3cr3t'', tagAuth ''HMAC-V1'' ''s3cr3t'', tagAuth ''hmac-v1'' ''other'',
      tagAuth ''hmac-v1'' ''s3cr3t'', tagAuth ''hmac-v1-beta'' ''s3cr3t''] = [2]
   \<and> Verify (snd (Sign (tagAuth ''hmac-v1'' ''s3cr3t'') (request ''GET /orders/42'')))
     [tagAuth ''hmac'' ''s3cr3t'', tagAuth ''HMAC-V1'' ''s3cr3t'', tagAuth ''hmac-v1'' ''other'',
      tagAuth ''hmac-v1'' ''s3cr3t'', tagAuth ''hmac-v1-beta'' ''s3cr3t'']
     = (False, Some (wrapError ''failed to verify request: bad signature''
                       (errorString ''bad signature'')))
   \<and> Verify_invoked (snd (Sign (tagAuth ''hmac-v1'' ''s3cr3t'') (request ''GET /orders/42'')))
     [tagAuth ''hmac'' ''s3cr3t'', tagAuth ''HMAC-V1'' ''s3cr3t'',
      tagAuth ''hmac-v1-beta'' ''s3cr3t''] = []"
proof -
  let ?req = "snd (Sign (tagAuth ''hmac-v1'' ''s3cr3t'') (request ''GET /orders/42''))"
  have h: "ReadMeta AuthMethodMetaKey ?req = Some ''hmac-v1''"
    by (simp add: svcauth_eval)
  have v: "Verify ?req
     [tagAuth ''hmac'' ''s3cr3t'', tagAuth ''HMAC-V1'' ''s3cr3t'', tagAuth ''hmac-v1'' ''other'',
      tagAuth ''hmac-v1'' ''s3cr3t'', tagAuth ''hmac-v1-beta'' ''s3cr3t'']
     = (False, Some (wrapError ''failed to verify request: bad signature''
                       (errorString ''bad signature'')))"
    by (simp add: svcauth_eval)
  show ?thesis
    using v
      Verify_invokes_first_match_only [OF h,
        of "[tagAuth ''hmac'' ''s3cr3t'', tagAuth ''HMAC-V1'' ''s3cr3t'',
             tagAuth ''hmac-v1'' ''other'', tagAuth ''hmac-v1'' ''s3cr3t'',
             tagAuth ''hmac-v1-beta'' ''s3cr3t'']"]
      Verify_invokes_first_match_only [OF h,
        of "[tagAuth ''hmac'' ''s3cr3t'', tagAuth ''HMAC-V1'' ''s3cr3t'',
             tagAuth ''hmac-v1-beta'' ''s3cr3t'']"]
    by (simp add: tagAuth_def)
qed

text \<open>
  Claim C7. For two methods with distinct names and a request signed with either of
  them, whose verify operation accepts it, \<open>Verify\<close> against \<open>[M1, M2]\<close> and against
  \<open>[M2, M1]\<close> both return \<open>internalCall = true\<close> and no error.
\<close>

theorem Verify_order_independent:
  assumes "method_name M1 \<noteq> method_name M2"
      and "M = M1 \<or> M = M2"
      and "fst (Sign M R) = None"
      and "verify M (snd (Sign M R)) = None"
  shows "Verify (snd (Sign M R)) [M1, M2] = (True, None)
       \<and> Verify (snd (Sign M R)) [M2, M1] = (True, None)"
proof -
  note marker = Sign_ok_marker [OF assms(3)]
  have first: "Verify (snd (Sign M R)) [M, M'] = (True, None)" for M'
    using Verify_first_match [OF marker, of "[]" M "[M']"] assms(4) by (simp add: Verify_def)
  have second: "Verify (snd (Sign M R)) [M', M] = (True, None)"
    if "method_name M' \<noteq> method_name M" for M'
    using Verify_first_match [OF marker, of "[M']" M "[]"] assms(4) that
    by (simp add: Verify_def)
  from assms(2) show ?thesis
  proof
    assume "M = M1"
    then show ?thesis using first [of M2] second [of M2] assms(1) by simp
  next
    assume "M = M2"
    then show ?thesis using first [of M1] second [of M1] assms(1) by simp
  qed
qed

theorem Verify_order_independent_witness:
  "Verify (snd (Sign (tagAuth ''hmac-v2'' ''n3w'') (request ''GET /orders/42'')))
     [tagAuth ''hmac-v1'' ''s3cr3t'', tagAuth ''hmac-v2'' ''n3w''] = (True, None)
   \<and> Verify (snd (Sign (tagAuth ''hmac-v2'' ''n3w'') (request ''GET /orders/42'')))
     [tagAuth ''hmac-v2'' ''n3w'', tagAuth ''hmac-v1'' ''s3cr3t''] = (True, None)"
proof -
  let ?M1 = "tagAuth ''hmac-v1'' ''s3cr3t''" and ?M2 = "tagAuth ''hmac-v2'' ''n3w''"
  let ?R = "request ''GET /orders/42''"
  have h1: "method_name ?M1 \<noteq> method_name ?M2" by (simp add: tagAuth_def)
  have h2: "?M2 = ?M1 \<or> ?M2 = ?M2" by simp
  have h3: "fst (Sign ?M2 ?R) = None" by (simp add: svcauth_eval)
  have h4: "verify ?M2 (snd (Sign ?M2 ?R)) = None" by (simp add: svcauth_eval)
  show ?thesis using Verify_order_independent [OF h1 h2 h3 h4] by simp
qed

section \<open>The loops of NewSet\<close>

lemma add_append:
  "add s (xs @ ys) =
     (case add s xs of (Some err, s') \<Rightarrow> (Some err, s') | (None, s') \<Rightarrow> add s' ys)"
  by (induction xs arbitrary: s) simp_all

lemma NewSet_environ_add:
  "NewSet_environ s environ =
     add s (concat (map (\<lambda>env. parseEnvVal (drop (length prefix) env))
                      (filter (\<lambda>env. HasPrefix env prefix) environ)))"
  by (induction environ arbitrary: s)
     (simp_all add: add_append split: prod.splits option.splits)

lemma parseEnvVal_empty: "parseEnvVal '''' = []"
  by (simp add: parseEnvVal_def)

lemma NewSet_as_add:
  "NewSet osenv fromAppFile environ =
     (case add \<lparr>experiments = Mapping.empty\<rparr> (NewSet_keys osenv fromAppFile environ) of
        (Some err, s) \<Rightarrow> Inl err
      | (None, s) \<Rightarrow> Inr s)"
  by (simp add: NewSet_def NewSet_keys_def add_append NewSet_environ_add Let_def
        parseEnvVal_empty split: prod.splits option.splits)

lemma add_error:
  "fst (add s keys)
     = map_option UnknownExperimentError (find (\<lambda>k. k \<noteq> '''' \<and> \<not> Valid k) keys)"
  by (induction keys arbitrary: s) simp_all

lemma add_keys:
  "fst (add s keys) = None \<Longrightarrow>
   Mapping.keys (experiments (snd (add s keys)))
     = Mapping.keys (experiments s) \<union> {k \<in> set keys. k \<noteq> ''''}"
  by (induction keys arbitrary: s) (auto split: if_splits)

lemma add_filter: "add s (filter (\<lambda>k. k \<noteq> '''') keys) = add s keys"
  by (induction keys arbitrary: s) simp_all

lemma find_None_all: "(\<forall>k\<in>set keys. \<not> P k) \<Longrightarrow> find P keys = None"
  by (induction keys) simp_all

lemma find_Some_mem: "find P keys = Some k \<Longrightarrow> k \<in> set keys \<and> P k"
  by (induction keys) (auto split: if_splits)

lemma find_exists: "\<exists>k\<in>set keys. P k \<Longrightarrow> \<exists>k. find P keys = Some k"
  by (induction keys) auto

lemma NewSet_error:
  assumes "find (\<lambda>k. k \<noteq> '''' \<and> \<not> Valid k) (NewSet_keys osenv app environ) = Some k"
  shows "NewSet osenv app environ = Inl (UnknownExperimentError k)"
proof -
  have "fst (add \<lparr>experiments = Mapping.empty\<rparr> (NewSet_keys osenv app environ))
          = Some (UnknownExperimentError k)"
    using assms by (simp add: add_error)
  then show ?thesis by (auto simp add: NewSet_as_add split: prod.splits option.splits)
qed

lemma NewSet_success:
  assumes "find (\<lambda>k. k \<noteq> '''' \<and> \<not> Valid k) (NewSet_keys osenv app environ) = None"
  shows "NewSet osenv app environ
     = Inr (snd (add \<lparr>experiments = Mapping.empty\<rparr> (NewSet_keys osenv app environ)))"
proof -
  have "fst (add \<lparr>experiments = Mapping.empty\<rparr> (NewSet_keys osenv app environ)) = None"
    using assms by (simp add: add_error)
  then show ?thesis by (auto simp add: NewSet_as_add split: prod.splits option.splits)
qed

lemma NewSet_Inl_find:
  assumes "NewSet osenv app environ = Inl e"
  shows "find (\<lambda>k. k \<noteq> '''' \<and> \<not> Valid k) (NewSet_keys osenv app environ) = Some (Name e)"
proof -
  from assms
  have "fst (add \<lparr>experiments = Mapping.empty\<rparr> (NewSet_keys osenv app environ)) = Some e"
    by (simp add: NewSet_as_add split: prod.splits option.splits)
  then show ?thesis by (auto simp add: add_error)
qed

lemma NewSet_Inr_keys:
  assumes "NewSet osenv app environ = Inr s"
  shows "Mapping.keys (experiments s) = {k \<in> set (NewSet_keys osenv app environ). k \<noteq> ''''}"
proof -
  let ?r = "add \<lparr>experiments = Mapping.empty\<rparr> (NewSet_keys osenv app environ)"
  from assms have "fst ?r = None \<and> snd ?r = s"
    by (simp add: NewSet_as_add split: prod.splits option.splits)
  then show ?thesis using add_keys [of "\<lparr>experiments = Mapping.empty\<rparr>"] by auto
qed

lemma lookup_not_key: "k \<notin> Mapping.keys m \<Longrightarrow> Mapping.lookup m k = None"
  by (simp add: Mapping.keys_dom_lookup domIff)

lemmas experiments_eval =
  Valid_def LocalSecretsOverride_def Metrics_def V2_def BetaRuntime_def ExternalCalls_def

lemma parseEnvVal_scenario: "parseEnvVal ''v2,metrics'' = [''v2'', ''metrics'']"
  by (simp add: parseEnvVal_def Trim_def quotes_def)

lemma ordered_keys_scenario:
  "Mapping.ordered_keys (Mapping.update ''metrics'' True (Mapping.update ''v2'' True
     (Mapping.update ''metrics'' True Mapping.empty))) = [''metrics'', ''v2'']"
  by simp

lemma environ_scenario:
  "HasPrefix ''ENCORE_EXPERIMENT=v2,metrics'' prefix"
  "drop (length prefix) ''ENCORE_EXPERIMENT=v2,metrics'' = ''v2,metrics''"
  by (simp_all add: HasPrefix_def prefix_def envName_def)

section \<open>Claims about the experiment set\<close>

text \<open>
  Claim C8, as amended. With the app file declaring \<open>["metrics"]\<close> and the variable
  \<open>ENCORE_EXPERIMENT\<close> set to \<open>v2,metrics\<close>, in the environment of the process or in the
  environment of the caller, \<open>NewSet\<close> succeeds and \<open>List\<close> of the set is
  \<open>["metrics", "v2"]\<close>. And whenever the inputs hold a non-empty name that is not a
  recognized experiment, \<open>NewSet\<close> returns an \<open>UnknownExperimentError\<close> that names the
  first such name in the order of processing.
\<close>

theorem NewSet_scenario_and_unknown:
  "(Getenv osenv envName = ''v2,metrics'' \<longrightarrow>
      (\<exists>s. NewSet osenv [''metrics''] [] = Inr s \<and> List (Some s) = [''metrics'', ''v2'']))
   \<and> (Getenv osenv envName = '''' \<longrightarrow>
      (\<exists>s. NewSet osenv [''metrics''] [''ENCORE_EXPERIMENT=v2,metrics''] = Inr s
           \<and> List (Some s) = [''metrics'', ''v2'']))
   \<and> (\<forall>k. find (\<lambda>k. k \<noteq> '''' \<and> \<not> Valid k) (NewSet_keys osenv app environ) = Some k \<longrightarrow>
        NewSet osenv app environ = Inl (UnknownExperimentError k)
        \<and> UnknownExperimentError_Error (UnknownExperimentError k)
            = ''unknown experiment: '' @ k)
   \<and> ((\<exists>k\<in>set (NewSet_keys osenv app environ). k \<noteq> '''' \<and> \<not> Valid k) \<longrightarrow>
        (\<exists>k. NewSet osenv app environ = Inl (UnknownExperimentError k)
             \<and> k \<in> set (NewSet_keys osenv app environ) \<and> k \<noteq> '''' \<and> \<not> Valid k))"
proof (intro conjI allI impI)
  assume "Getenv osenv envName = ''v2,metrics''"
  then show "\<exists>s. NewSet osenv [''metrics''] [] = Inr s \<and> List (Some s) = [''metrics'', ''v2'']"
    by (simp add: NewSet_def parseEnvVal_scenario experiments_eval List_def
          ordered_keys_scenario)
next
  assume "Getenv osenv envName = ''''"
  then show "\<exists>s. NewSet osenv [''metrics''] [''ENCORE_EXPERIMENT=v2,metrics''] = Inr s
           \<and> List (Some s) = [''metrics'', ''v2'']"
    by (simp add: NewSet_def environ_scenario parseEnvVal_scenario experiments_eval List_def
          ordered_keys_scenario)
next
  fix k
  assume "find (\<lambda>k. k \<noteq> '''' \<and> \<not> Valid k) (NewSet_keys osenv app environ) = Some k"
  then show "NewSet osenv app environ = Inl (UnknownExperimentError k)"
    by (rule NewSet_error)
next
  fix k
  show "UnknownExperimentError_Error (UnknownExperimentError k) = ''unknown experiment: '' @ k"
    by (simp add: UnknownExperimentError_Error_def)
next
  assume "\<exists>k\<in>set (NewSet_keys osenv app environ). k \<noteq> '''' \<and> \<not> Valid k"
  from find_exists [of "NewSet_keys osenv app environ" "\<lambda>k. k \<noteq> '''' \<and> \<not> Valid k", OF this]
  obtain k where
    k: "find (\<lambda>k. k \<noteq> '''' \<and> \<not> Valid k) (NewSet_keys osenv app environ) = Some k"
    by blast
  from NewSet_error [OF k] find_Some_mem [OF k]
  show "\<exists>k. NewSet osenv app environ = Inl (UnknownExperimentError k)
             \<and> k \<in> set (NewSet_keys osenv app environ) \<and> k \<noteq> '''' \<and> \<not> Valid k"
    by blast
qed

theorem NewSet_scenario_and_unknown_witness:
  "List (Some (projr (NewSet [envName \<mapsto> ''v2,metrics''] [''metrics''] [])))
     = [''metrics'', ''v2'']
   \<and> List (Some (projr (NewSet Map.empty [''metrics''] [''ENCORE_EXPERIMENT=v2,metrics''])))
     = [''metrics'', ''v2'']
   \<and> NewSet [envName \<mapsto> ''v3,beta''] ['''', ''metrics''] [''PATH=/bin'', ''ENCORE_EXPERIMENT=v4'']
     = Inl (UnknownExperimentError ''v3'')"
proof -
  have h1: "Getenv [envName \<mapsto> ''v2,metrics''] envName = ''v2,metrics''"
    by (simp add: Getenv_def)
  have h2: "Getenv Map.empty envName = ''''"
    by (simp add: Getenv_def)
  have keys: "NewSet_keys [envName \<mapsto> ''v3,beta''] ['''', ''metrics'']
                [''PATH=/bin'', ''ENCORE_EXPERIMENT=v4'']
              = ['''', ''metrics'', ''v3'', ''beta'', ''v4'']"
    by (simp add: NewSet_keys_def Getenv_def parseEnvVal_def Trim_def quotes_def HasPrefix_def
          prefix_def envName_def)
  have h3: "find (\<lambda>k. k \<noteq> '''' \<and> \<not> Valid k)
              (NewSet_keys [envName \<mapsto> ''v3,beta''] ['''', ''metrics'']
                 [''PATH=/bin'', ''ENCORE_EXPERIMENT=v4'']) = Some ''v3''"
    unfolding keys by (simp add: experiments_eval)
  have a: "\<exists>s. NewSet [envName \<mapsto> ''v2,metrics''] [''metrics''] [] = Inr s
             \<and> List (Some s) = [''metrics'', ''v2'']"
    using NewSet_scenario_and_unknown [of "[envName \<mapsto> ''v2,metrics'']" "[]" "[]"] h1
    by blast
  have b: "\<exists>s. NewSet Map.empty [''metrics''] [''ENCORE_EXPERIMENT=v2,metrics''] = Inr s
             \<and> List (Some s) = [''metrics'', ''v2'']"
    using NewSet_scenario_and_unknown [of Map.empty "[]" "[]"] h2
    by blast
  have c: "NewSet [envName \<mapsto> ''v3,beta''] ['''', ''metrics'']
             [''PATH=/bin'', ''ENCORE_EXPERIMENT=v4''] = Inl (UnknownExperimentError ''v3'')"
    using NewSet_scenario_and_unknown [of "[envName \<mapsto> ''v3,beta'']" "['''', ''metrics'']"
        "[''PATH=/bin'', ''ENCORE_EXPERIMENT=v4'']"] h3
    by blast
  from a b c show ?thesis by auto
qed

text \<open>
  The claim C8 as it was stated fails: the empty name is no recognized experiment, and
  \<open>NewSet\<close> accepts an app file that lists it; and with two unknown names in the
  inputs the error names the first, not the second.
\<close>

theorem NewSet_unknown_flag_counterexample:
  "'''' \<in> set (NewSet_keys Map.empty [''''] []) \<and> \<not> Valid ''''
   \<and> NewSet Map.empty [''''] [] = Inr \<lparr>experiments = Mapping.empty\<rparr>
   \<and> ''bar'' \<in> set (NewSet_keys Map.empty [''foo'', ''bar''] []) \<and> \<not> Valid ''bar''
   \<and> NewSet Map.empty [''foo'', ''bar''] [] = Inl (UnknownExperimentError ''foo'')"
  by (simp add: NewSet_def NewSet_keys_def Getenv_def experiments_eval parseEnvVal_empty)

text \<open>
  Claim C9. \<open>x.Enabled(nil)\<close> is false for every name \<open>x\<close>, and \<open>List\<close> of a nil set
  is the empty list: a missing set behaves as the set with no experiment.
\<close>

theorem nil_Set_is_empty:
  "Enabled x None = False \<and> List None = []
   \<and> Enabled x None = Enabled x (Some \<lparr>experiments = Mapping.empty\<rparr>)
   \<and> List None = List (Some \<lparr>experiments = Mapping.empty\<rparr>)"
  by (simp add: Enabled_def List_def)

text \<open>
  Claim C10. Empty names are skipped and never rejected. An error of \<open>NewSet\<close> never
  names the empty string; a set that \<open>NewSet\<close> returns never holds it; the result of
  \<open>NewSet\<close> is the one it would give with the empty names left out, be they in the app
  file or empty segments of a trimmed and split environment value; and inputs made of
  empty and recognized names only give no error.
\<close>

theorem empty_names_skipped:
  "(\<forall>e. NewSet osenv app environ = Inl e \<longrightarrow>
        Name e \<noteq> '''' \<and> Name e \<in> set (NewSet_keys osenv app environ) \<and> \<not> Valid (Name e))
   \<and> (\<forall>s. NewSet osenv app environ = Inr s \<longrightarrow>
        '''' \<notin> Mapping.keys (experiments s) \<and> \<not> Enabled '''' (Some s)
        \<and> '''' \<notin> set (List (Some s)))
   \<and> NewSet osenv app environ =
       (case add \<lparr>experiments = Mapping.empty\<rparr>
               (filter (\<lambda>k. k \<noteq> '''') (NewSet_keys osenv app environ)) of
          (Some err, s) \<Rightarrow> Inl err
        | (None, s) \<Rightarrow> Inr s)
   \<and> ((\<forall>k\<in>set (NewSet_keys osenv app environ). k = '''' \<or> Valid k) \<longrightarrow>
        (\<exists>s. NewSet osenv app environ = Inr s))"
proof (intro conjI allI impI)
  fix e assume h: "NewSet osenv app environ = Inl e"
  from find_Some_mem [OF NewSet_Inl_find [OF h]]
  show "Name e \<noteq> ''''" and "Name e \<in> set (NewSet_keys osenv app environ)"
    and "\<not> Valid (Name e)" by simp_all
next
  fix s assume h: "NewSet osenv app environ = Inr s"
  from NewSet_Inr_keys [OF h] show k: "'''' \<notin> Mapping.keys (experiments s)" by simp
  from lookup_not_key [OF k] show "\<not> Enabled '''' (Some s)" by (simp add: Enabled_def)
  have "finite (Mapping.keys (experiments s))" using NewSet_Inr_keys [OF h] by simp
  then show "'''' \<notin> set (List (Some s))" using k by (simp add: List_def)
next
  show "NewSet osenv app environ =
       (case add \<lparr>experiments = Mapping.empty\<rparr>
               (filter (\<lambda>k. k \<noteq> '''') (NewSet_keys osenv app environ)) of
          (Some err, s) \<Rightarrow> Inl err
        | (None, s) \<Rightarrow> Inr s)"
    by (simp only: add_filter NewSet_as_add)
next
  assume "\<forall>k\<in>set (NewSet_keys osenv app environ). k = '''' \<or> Valid k"
  then have "\<forall>k\<in>set (NewSet_keys osenv app environ). \<not> (k \<noteq> '''' \<and> \<not> Valid k)" by blast
  from NewSet_success [OF find_None_all [OF this]]
  show "\<exists>s. NewSet osenv app environ = Inr s" by blast
qed

theorem empty_names_skipped_witness:
  "NewSet_keys [envName \<mapsto> CHR 0x22 # ''v2,,metrics,'' @ [CHR 0x22]] ['''', ''metrics'', '''']
     [''ENCORE_EXPERIMENT='', ''ENCORE_EXPERIMENT=,beta-runtime'',
      ''ENCORE_EXPERIMENT='' @ [CHR 0x27, CHR 0x27]]
     = ['''', ''metrics'', '''', ''v2'', '''', ''metrics'', '''', '''', ''beta-runtime'', '''']
   \<and> \<not> isl (NewSet [envName \<mapsto> CHR 0x22 # ''v2,,metrics,'' @ [CHR 0x22]]
              ['''', ''metrics'', '''']
              [''ENCORE_EXPERIMENT='', ''ENCORE_EXPERIMENT=,beta-runtime'',
               ''ENCORE_EXPERIMENT='' @ [CHR 0x27, CHR 0x27]])
   \<and> List (Some (projr (NewSet [envName \<mapsto> CHR 0x22 # ''v2,,metrics,'' @ [CHR 0x22]]
              ['''', ''metrics'', '''']
              [''ENCORE_EXPERIMENT='', ''ENCORE_EXPERIMENT=,beta-runtime'',
               ''ENCORE_EXPERIMENT='' @ [CHR 0x27, CHR 0x27]])))
     = [''beta-runtime'', ''metrics'', ''v2'']"
proof -
  let ?osenv = "[envName \<mapsto> CHR 0x22 # ''v2,,metrics,'' @ [CHR 0x22]]"
  let ?app = "['''', ''metrics'', '''']"
  let ?environ = "[''ENCORE_EXPERIMENT='', ''ENCORE_EXPERIMENT=,beta-runtime'',
                   ''ENCORE_EXPERIMENT='' @ [CHR 0x27, CHR 0x27]]"
  have keys: "NewSet_keys ?osenv ?app ?environ
     = ['''', ''metrics'', '''', ''v2'', '''', ''metrics'', '''', '''', ''beta-runtime'', '''']"
    by (simp add: NewSet_keys_def Getenv_def parseEnvVal_def Trim_def quotes_def HasPrefix_def
          prefix_def envName_def)
  have h: "\<forall>k\<in>set (NewSet_keys ?osenv ?app ?environ). k = '''' \<or> Valid k"
    unfolding keys by (simp add: experiments_eval)
  from empty_names_skipped [of ?osenv ?app ?environ] h
  obtain s where s: "NewSet ?osenv ?app ?environ = Inr s" by blast
  have l: "List (Some (projr (NewSet ?osenv ?app ?environ)))
             = [''beta-runtime'', ''metrics'', ''v2'']"
    unfolding NewSet_as_add keys by (simp add: experiments_eval List_def)
  from keys s l show ?thesis by simp
qed

end
